theory Spec2Isabelle
  imports Main "HOL-Library.Word" "HOL-Library.Signed_Division"
begin

unbundle bit_operations_syntax

section \<open>Machine integers of the C source\<close>

text \<open>
  \<open>int\<close> and \<open>int32_t\<close> are 32-bit two's complement words, \<open>int64_t\<close> is a 64-bit
  word. Arithmetic wraps; \<open>sint\<close> reads the signed value. A cast between the two
  widths is \<open>scast\<close>: sign extension for \<open>(int64_t) x\<close>, the low 32 bits for
  \<open>(int32_t) y\<close>. \<open>>>\<close> on a signed operand is the arithmetic shift
  \<open>signed_drop_bit\<close>, \<open><<\<close> is \<open>push_bit\<close>.
\<close>

type_synonym int32 = "32 word"
type_synonym int64 = "64 word"

definition INT32_MAX :: int64 where
  "INT32_MAX = 2147483647"

definition INT32_MIN :: int64 where
  "INT32_MIN = - 2147483648"

definition INT64_MIN :: int64 where
  "INT64_MIN = - 9223372036854775808"

text \<open>
  The C operator \<open>/\<close> on \<open>int64_t\<close>: the quotient truncated towards zero. Division by
  zero and \<open>INT64_MIN / -1\<close> are faults, written as \<open>None\<close>.
\<close>

definition c_div64 :: "int64 \<Rightarrow> int64 \<Rightarrow> int64 option" where
  "c_div64 a b =
     (if b = 0 \<or> (a = INT64_MIN \<and> b = - 1) then None
      else Some (word_of_int (sint a sdiv sint b)))"

section \<open>Module state\<close>

text \<open>
  The arrays \<open>x[2]\<close> of the module are pairs, read and written by the channel
  index \<open>ch\<close>, which the source keeps below 2.
\<close>

type_synonym 'a arr2 = "'a \<times> 'a"

definition idx2 :: "'a arr2 \<Rightarrow> nat \<Rightarrow> 'a" where
  "idx2 a ch = (if ch = 0 then fst a else snd a)"

definition upd2 :: "'a arr2 \<Rightarrow> nat \<Rightarrow> 'a \<Rightarrow> 'a arr2" where
  "upd2 a ch v = (if ch = 0 then (v, snd a) else (fst a, v))"

text \<open>The static variables of \<open>subharmonic.c\<close>.\<close>

record subharmonic =
  prev_crossover_out :: "int32 arr2"
  subharmonic_hold_q16 :: "int32 arr2"
  prev_antialias_out_q16 :: "int32 arr2"
  toggle_state :: "int32 arr2"
  samplerate :: int32
  alpha_q16 :: int32
  gain_q16 :: int32
  pregain :: bool

text \<open>The values at program start: \<open>samplerate = 44100\<close>, everything else zero.\<close>

definition initial_state :: subharmonic where
  "initial_state =
     \<lparr> prev_crossover_out = (0, 0), subharmonic_hold_q16 = (0, 0),
       prev_antialias_out_q16 = (0, 0), toggle_state = (0, 0),
       samplerate = 44100, alpha_q16 = 0, gain_q16 = 0, pregain = False \<rparr>"

text \<open>
  The fields of \<open>global_settings\<close> that the module reads. The structure itself is
  declared in \<open>settings.h\<close>, outside this file, and is owned by the host.
\<close>

record global_settings =
  subharmonic_enable :: bool
  subharmonic_crossover :: int32
  subharmonic_level :: int32
  subharmonic_pregain :: bool

section \<open>Gain table\<close>

definition GAIN_TABLE_MIN_DB :: int32 where
  "GAIN_TABLE_MIN_DB = - 24"

definition GAIN_TABLE_MAX_DB :: int32 where
  "GAIN_TABLE_MAX_DB = 12"

definition gain_table_q16 :: "int32 list" where
  "gain_table_q16 =
     [4145, 4655, 5226, 5867, 6588, 7399, 8310, 9336, 10488, 11782, 13234, 14865,
      16700, 18766, 21095, 23721, 26686, 30033, 33808, 38065, 42862, 48265, 54342,
      61172, 65536, 73690, 82708, 92713, 103957, 116607, 130858, 146928, 165060,
      185533, 208661, 234804, 264367]"

text \<open>The clamp and lookup shared by \<open>recompute\<close> and \<open>sound_set_subharmonic_level\<close>.\<close>

definition clamp_db :: "int32 \<Rightarrow> int32" where
  "clamp_db db =
     (let db = (if db <s GAIN_TABLE_MIN_DB then GAIN_TABLE_MIN_DB else db);
          db = (if GAIN_TABLE_MAX_DB <s db then GAIN_TABLE_MAX_DB else db)
      in db)"

definition gain_lookup :: "int32 \<Rightarrow> int32" where
  "gain_lookup db = gain_table_q16 ! nat (sint (clamp_db db - GAIN_TABLE_MIN_DB))"

section \<open>Reset and coefficient computation\<close>

definition flush_state :: "subharmonic \<Rightarrow> subharmonic" where
  "flush_state s =
     s\<lparr> prev_crossover_out := (0, 0),
        subharmonic_hold_q16 := (0, 0),
        prev_antialias_out_q16 := (0, 0),
        toggle_state := (0, 0) \<rparr>"

text \<open>
  \<open>(int32_t)(6.283185307179586 * (1<<16))\<close>: the product is 411774.83..., and the
  cast truncates it.
\<close>

definition TWO_PI_Q16 :: int32 where
  "TWO_PI_Q16 = 411774"

text \<open>
  The denominator of the coefficient, before the guard: \<open>w_q16 + ((int64_t)samplerate << 16)\<close>.
\<close>

definition w_q16_of :: "int32 \<Rightarrow> int64" where
  "w_q16_of fc = scast fc * scast TWO_PI_Q16"

definition den_of :: "int32 \<Rightarrow> int32 \<Rightarrow> int64" where
  "den_of fc sr = w_q16_of fc + push_bit 16 (scast sr)"

text \<open>The divisor after the guard \<open>if (den <= 0) den = 1\<close>.\<close>

definition guarded_den :: "int32 \<Rightarrow> int32 \<Rightarrow> int64" where
  "guarded_den fc sr = (if den_of fc sr \<le>s 0 then 1 else den_of fc sr)"

text \<open>
  The four statements that \<open>recompute\<close> and \<open>sound_set_subharmonic_crossover\<close> have
  in common, from the cutoff and the cached sample rate to the new \<open>alpha_q16\<close>.
\<close>

definition calc_alpha_q16 :: "int32 \<Rightarrow> int32 \<Rightarrow> int32 option" where
  "calc_alpha_q16 fc sr =
     (let w_q16 = w_q16_of fc;
          den = w_q16 + push_bit 16 (scast sr);
          den = (if den \<le>s 0 then 1 else den)
      in map_option scast (c_div64 (push_bit 16 w_q16) den))"

text \<open>
  The value the division yields when it does not fault: the truncated quotient of
  \<open>w_q16 << 16\<close> by the guarded denominator, cast to 32 bits.
\<close>

definition alpha_value :: "int32 \<Rightarrow> int32 \<Rightarrow> int32" where
  "alpha_value fc sr =
     scast (word_of_int (sint (push_bit 16 (w_q16_of fc)) sdiv sint (guarded_den fc sr)) :: int64)"

definition recompute :: "global_settings \<Rightarrow> subharmonic \<Rightarrow> subharmonic option" where
  "recompute gs s =
     (let fc = subharmonic_crossover gs in
      case calc_alpha_q16 fc (samplerate s) of
        None \<Rightarrow> None
      | Some a \<Rightarrow>
          Some (s\<lparr> alpha_q16 := a,
                   gain_q16 := gain_lookup (subharmonic_level gs),
                   pregain := subharmonic_pregain gs \<rparr>))"

section \<open>Runtime setters\<close>

text \<open>
  The three parameter setters write the module's own variables only; none of them
  writes \<open>global_settings\<close>. The fourth setter, \<open>sound_set_subharmonic_enable\<close>, stores
  its argument in \<open>global_settings.subharmonic_enable\<close> and registers the effect with
  the host's pipeline; it touches none of the variables above.
\<close>

definition sound_set_subharmonic_crossover :: "int32 \<Rightarrow> subharmonic \<Rightarrow> subharmonic option" where
  "sound_set_subharmonic_crossover hz s =
     (case calc_alpha_q16 hz (samplerate s) of
        None \<Rightarrow> None
      | Some a \<Rightarrow> Some (s\<lparr> alpha_q16 := a \<rparr>))"

definition sound_set_subharmonic_level :: "int32 \<Rightarrow> subharmonic \<Rightarrow> subharmonic" where
  "sound_set_subharmonic_level db s = s\<lparr> gain_q16 := gain_lookup db \<rparr>"

definition sound_set_subharmonic_pregain_enable :: "bool \<Rightarrow> subharmonic \<Rightarrow> subharmonic" where
  "sound_set_subharmonic_pregain_enable on s = s\<lparr> pregain := on \<rparr>"

section \<open>Per-sample pipeline\<close>

text \<open>
  The one-pole recurrence \<open>y[n] = alpha * x[n] + (1 - alpha) * y[n-1]\<close>, written twice in
  \<open>process\<close>: the 64-bit accumulation shifted right by 16, and its cast to 32 bits.
  The factor \<open>(1<<16) - alpha_q16\<close> is computed in \<open>int\<close> before it is widened.
\<close>

definition lowpass_acc :: "int32 \<Rightarrow> int32 \<Rightarrow> int32 \<Rightarrow> int64" where
  "lowpass_acc alpha x prev =
     signed_drop_bit 16 (scast alpha * scast x + scast (65536 - alpha) * scast prev)"

definition lowpass :: "int32 \<Rightarrow> int32 \<Rightarrow> int32 \<Rightarrow> int32" where
  "lowpass alpha x prev = scast (lowpass_acc alpha x prev)"

text \<open>The mixer with its two clipping tests: the 64-bit \<open>mixer_out\<close> before the final cast.\<close>

definition mixer :: "bool \<Rightarrow> int32 \<Rightarrow> int32 \<Rightarrow> int32 \<Rightarrow> int64" where
  "mixer pg gain sample antialias_out =
     (let mixer_out =
            (if pg then signed_drop_bit 1 (scast sample)
                          + signed_drop_bit 16 (scast gain * scast antialias_out)
             else scast sample + signed_drop_bit 16 (scast gain * scast antialias_out));
          mixer_out = (if INT32_MAX <s mixer_out then INT32_MAX else mixer_out);
          mixer_out = (if mixer_out <s INT32_MIN then INT32_MIN else mixer_out)
      in mixer_out)"

text \<open>
  The body of the inner loop for channel \<open>ch\<close> and the sample read from the buffer;
  returns the new module state and the sample written back.
\<close>

definition process_sample :: "subharmonic \<Rightarrow> nat \<Rightarrow> int32 \<Rightarrow> subharmonic \<times> int32" where
  "process_sample s ch sample =
     (let crossover_out = lowpass (alpha_q16 s) sample (idx2 (prev_crossover_out s) ch);
          s = s\<lparr> prev_crossover_out := upd2 (prev_crossover_out s) ch crossover_out \<rparr>;
          s = (if idx2 (toggle_state s) ch = 0
               then s\<lparr> subharmonic_hold_q16 := upd2 (subharmonic_hold_q16 s) ch crossover_out \<rparr>
               else s);
          s = s\<lparr> toggle_state := upd2 (toggle_state s) ch (idx2 (toggle_state s) ch XOR 1) \<rparr>;
          subharmonic_out = idx2 (subharmonic_hold_q16 s) ch;
          antialias_out =
            lowpass (alpha_q16 s) subharmonic_out (idx2 (prev_antialias_out_q16 s) ch);
          s = s\<lparr> prev_antialias_out_q16 := upd2 (prev_antialias_out_q16 s) ch antialias_out \<rparr>
      in (s, scast (mixer (pregain s) (gain_q16 s) sample antialias_out)))"

section \<open>Buffers and the processing loop\<close>

text \<open>
  The fields of \<open>struct dsp_buffer\<close> that \<open>process\<close> reads: the sample count, the two
  channel arrays (kept apart: the right one is only touched for stereo) and the
  channel count of the format. Indexing past the end of a channel array is a fault.
\<close>

record dsp_buffer =
  remcount :: int32
  p32 :: "int32 list arr2"
  num_channels :: nat

definition read_sample :: "dsp_buffer \<Rightarrow> nat \<Rightarrow> nat \<Rightarrow> int32 option" where
  "read_sample buf ch i =
     (let xs = idx2 (p32 buf) ch in if i < length xs then Some (xs ! i) else None)"

definition write_sample :: "dsp_buffer \<Rightarrow> nat \<Rightarrow> nat \<Rightarrow> int32 \<Rightarrow> dsp_buffer" where
  "write_sample buf ch i v = buf\<lparr> p32 := upd2 (p32 buf) ch ((idx2 (p32 buf) ch)[i := v]) \<rparr>"

text \<open>The inner loop over the channels, for sample index \<open>i\<close>.\<close>

fun process_channels ::
  "nat \<Rightarrow> nat list \<Rightarrow> subharmonic \<times> dsp_buffer \<Rightarrow> (subharmonic \<times> dsp_buffer) option" where
  "process_channels i [] sb = Some sb"
| "process_channels i (ch # chs) (s, buf) =
     (case read_sample buf ch i of
        None \<Rightarrow> None
      | Some sample \<Rightarrow>
          (let (s', out) = process_sample s ch sample
           in process_channels i chs (s', write_sample buf ch i out)))"

text \<open>The outer loop over the sample indices.\<close>

fun process_samples ::
  "nat list \<Rightarrow> nat list \<Rightarrow> subharmonic \<times> dsp_buffer \<Rightarrow> (subharmonic \<times> dsp_buffer) option" where
  "process_samples [] chs sb = Some sb"
| "process_samples (i # is) chs sb =
     (case process_channels i chs sb of
        None \<Rightarrow> None
      | Some sb' \<Rightarrow> process_samples is chs sb')"

definition process ::
  "global_settings \<Rightarrow> subharmonic \<Rightarrow> dsp_buffer \<Rightarrow> (subharmonic \<times> dsp_buffer) option" where
  "process gs s buf =
     (if \<not> subharmonic_enable gs then Some (s, buf)
      else process_samples [0 ..< nat (sint (remcount buf))]
             [0 ..< min (num_channels buf) 2] (s, buf))"

text \<open>
  The states of the module after each sample of one channel's stream, in order: what
  the loop goes through for channel \<open>ch\<close>.
\<close>

primrec channel_states :: "subharmonic \<Rightarrow> nat \<Rightarrow> int32 list \<Rightarrow> subharmonic list" where
  "channel_states s ch [] = []"
| "channel_states s ch (x # xs) =
     (let s' = fst (process_sample s ch x) in s' # channel_states s' ch xs)"

text \<open>
  Two module states agree on channel \<open>ch\<close>: the four per-channel cells of that
  channel and the three coefficients that the loop body reads are the same.
\<close>

definition same_channel :: "nat \<Rightarrow> subharmonic \<Rightarrow> subharmonic \<Rightarrow> bool" where
  "same_channel ch s t \<longleftrightarrow>
     idx2 (prev_crossover_out s) ch = idx2 (prev_crossover_out t) ch
     \<and> idx2 (subharmonic_hold_q16 s) ch = idx2 (subharmonic_hold_q16 t) ch
     \<and> idx2 (prev_antialias_out_q16 s) ch = idx2 (prev_antialias_out_q16 t) ch
     \<and> idx2 (toggle_state s) ch = idx2 (toggle_state t) ch
     \<and> alpha_q16 s = alpha_q16 t \<and> gain_q16 s = gain_q16 t \<and> pregain s = pregain t"

section \<open>Lifecycle events\<close>

text \<open>
  The setting codes and \<open>PROC_NEW_FORMAT_OK\<close> come from the host's headers; only the
  cases that \<open>configure\<close> distinguishes are kept apart. \<open>this->process\<close> is either the
  module's \<open>process\<close> or \<open>NULL\<close>; the host's \<open>dsp_get_output_frequency(dsp)\<close> is the
  field \<open>output_frequency\<close>.
\<close>

datatype dsp_setting =
  DSP_PROC_INIT | DSP_PROC_CLOSE | DSP_FLUSH | DSP_SET_OUT_FREQUENCY
  | DSP_PROC_NEW_FORMAT | DSP_OTHER nat

datatype retval = RET_ZERO | PROC_NEW_FORMAT_OK

record dsp_proc_entry =
  process_set :: bool

record dsp_config =
  output_frequency :: int32

definition configure ::
  "global_settings \<Rightarrow> dsp_proc_entry \<Rightarrow> dsp_config \<Rightarrow> dsp_setting \<Rightarrow> subharmonic
     \<Rightarrow> (retval \<times> dsp_proc_entry \<times> subharmonic) option" where
  "configure gs this dsp setting s =
     (case setting of
        DSP_PROC_INIT \<Rightarrow>
          (let s = flush_state s;
               this = this\<lparr> process_set := True \<rparr>;
               s = s\<lparr> samplerate := output_frequency dsp \<rparr>
           in map_option (\<lambda>s. (RET_ZERO, this, s)) (recompute gs s))
      | DSP_PROC_CLOSE \<Rightarrow>
          (let s = flush_state s;
               this = this\<lparr> process_set := False \<rparr>
           in Some (RET_ZERO, this, s))
      | DSP_FLUSH \<Rightarrow> Some (RET_ZERO, this, flush_state s)
      | DSP_SET_OUT_FREQUENCY \<Rightarrow>
          (let s = s\<lparr> samplerate := output_frequency dsp \<rparr>
           in map_option (\<lambda>s. (RET_ZERO, this, s)) (recompute gs s))
      | DSP_PROC_NEW_FORMAT \<Rightarrow> Some (PROC_NEW_FORMAT_OK, this, s)
      | DSP_OTHER _ \<Rightarrow> Some (RET_ZERO, this, s))"

section \<open>Signed values of 32-bit and 64-bit words\<close>

lemma sint32_ge: "- 2147483648 \<le> sint (a :: int32)"
  using sint_ge [of a] by simp

lemma sint32_le: "sint (a :: int32) \<le> 2147483647"
  using sint_lt [of a] by simp

lemma sint_widen: "sint (scast (a :: int32) :: int64) = sint a"
  by (simp add: sint_up_scast is_up)

lemma stb63:
  "- 9223372036854775808 \<le> k \<Longrightarrow> k \<le> 9223372036854775807 \<Longrightarrow> signed_take_bit 63 (k::int) = k"
  by (rule signed_take_bit_int_eq_self) simp_all

lemma stb31:
  "- 2147483648 \<le> k \<Longrightarrow> k \<le> 2147483647 \<Longrightarrow> signed_take_bit 31 (k::int) = k"
  by (rule signed_take_bit_int_eq_self) simp_all

lemma sint64_of_int:
  "- 9223372036854775808 \<le> k \<Longrightarrow> k \<le> 9223372036854775807 \<Longrightarrow> sint (word_of_int k :: int64) = k"
  by (simp add: sint_sbintrunc' stb63)

lemma sint64_add:
  "- 9223372036854775808 \<le> sint a + sint b \<Longrightarrow> sint a + sint b \<le> 9223372036854775807
     \<Longrightarrow> sint (a + b :: int64) = sint a + sint b"
  by (simp add: sint_word_add stb63)

lemma sint64_mult:
  "- 9223372036854775808 \<le> sint a * sint b \<Longrightarrow> sint a * sint b \<le> 9223372036854775807
     \<Longrightarrow> sint (a * b :: int64) = sint a * sint b"
  by (simp add: sint_word_mult stb63)

lemma sint64_push16:
  "- 140737488355328 \<le> sint a \<Longrightarrow> sint a \<le> 140737488355327
     \<Longrightarrow> sint (push_bit 16 a :: int64) = sint a * 65536"
  by (simp add: push_bit_eq_mult sint_word_mult stb63)

lemma sint64_sdrop: "sint (signed_drop_bit n (a :: int64)) = sint a div 2 ^ n"
  by (simp add: sint_signed_drop_bit_eq drop_bit_eq_div)

lemma sint_narrow:
  "- 2147483648 \<le> sint a \<Longrightarrow> sint a \<le> 2147483647 \<Longrightarrow> sint (scast (a :: int64) :: int32) = sint a"
  by (simp add: signed_scast_eq stb31)

lemma sint32_sub:
  "- 2147483648 \<le> sint a - sint b \<Longrightarrow> sint a - sint b \<le> 2147483647
     \<Longrightarrow> sint (a - b :: int32) = sint a - sint b"
  by (simp add: sint_word_diff stb31)

section \<open>The gain lookup stays inside the table\<close>

lemma clamp_db_range: "- 24 \<le> sint (clamp_db db) \<and> sint (clamp_db db) \<le> 12"
  by (simp add: clamp_db_def GAIN_TABLE_MIN_DB_def GAIN_TABLE_MAX_DB_def word_sless_alt Let_def)

lemma gain_index_in_table:
  "nat (sint (clamp_db db - GAIN_TABLE_MIN_DB)) < length gain_table_q16"
proof -
  have "sint (clamp_db db - GAIN_TABLE_MIN_DB) = sint (clamp_db db) + 24"
    using clamp_db_range [of db]
    by (subst sint32_sub) (simp_all add: GAIN_TABLE_MIN_DB_def)
  moreover have "length gain_table_q16 = 37"
    by (simp add: gain_table_q16_def)
  ultimately show ?thesis
    using clamp_db_range [of db] by (simp only:) arith
qed

lemma gain_table_bounds:
  "list_all (\<lambda>g. 4145 \<le> sint g \<and> sint g \<le> 264367) gain_table_q16"
  by (simp add: gain_table_q16_def)

lemma gain_lookup_bounds: "4145 \<le> sint (gain_lookup db) \<and> sint (gain_lookup db) \<le> 264367"
  using gain_table_bounds gain_index_in_table [of db]
  by (simp add: gain_lookup_def list_all_length)

section \<open>The coefficient computation never faults\<close>

lemma sint_w_q16_of: "sint (w_q16_of fc) = sint fc * 411774"
proof -
  have "sint (scast fc * scast TWO_PI_Q16 :: int64)
      = sint (scast fc :: int64) * sint (scast TWO_PI_Q16 :: int64)"
    using sint32_ge [of fc] sint32_le [of fc]
    by (intro sint64_mult) (simp_all add: sint_widen TWO_PI_Q16_def)
  then show ?thesis
    by (simp add: w_q16_of_def sint_widen TWO_PI_Q16_def)
qed

lemma sint_rate_shift: "sint (push_bit 16 (scast (sr :: int32)) :: int64) = sint sr * 65536"
  using sint32_ge [of sr] sint32_le [of sr]
  by (subst sint64_push16) (simp_all add: sint_widen)

lemma sint_den_of: "sint (den_of fc sr) = sint fc * 411774 + sint sr * 65536"
  unfolding den_of_def
  using sint32_ge [of sr] sint32_le [of sr] sint32_ge [of fc] sint32_le [of fc]
  by (subst sint64_add) (simp_all add: sint_w_q16_of sint_rate_shift)

lemma guarded_den_pos: "0 < sint (guarded_den fc sr)"
  by (simp add: guarded_den_def word_sle_eq)

lemma guarded_den_nonzero: "guarded_den fc sr \<noteq> 0"
  using guarded_den_pos [of fc sr] by auto

lemma guarded_den_not_m1: "guarded_den fc sr \<noteq> - 1"
  using guarded_den_pos [of fc sr] by auto

lemma calc_alpha_q16_guarded:
  "calc_alpha_q16 fc sr =
     map_option scast (c_div64 (push_bit 16 (w_q16_of fc)) (guarded_den fc sr))"
  by (simp add: calc_alpha_q16_def guarded_den_def den_of_def Let_def)

lemma calc_alpha_q16_total: "calc_alpha_q16 fc sr = Some (alpha_value fc sr)"
  unfolding calc_alpha_q16_guarded
  using guarded_den_nonzero [of fc sr] guarded_den_not_m1 [of fc sr]
  by (simp add: c_div64_def alpha_value_def)

lemma recompute_total:
  "recompute gs s =
     Some (s\<lparr> alpha_q16 := alpha_value (subharmonic_crossover gs) (samplerate s),
              gain_q16 := gain_lookup (subharmonic_level gs),
              pregain := subharmonic_pregain gs \<rparr>)"
  by (simp add: recompute_def calc_alpha_q16_total)

lemma setter_total:
  "sound_set_subharmonic_crossover hz s =
     Some (s\<lparr> alpha_q16 := alpha_value hz (samplerate s) \<rparr>)"
  by (simp add: sound_set_subharmonic_crossover_def calc_alpha_q16_total)

section \<open>Lifecycle events: what they reset and what they keep\<close>

text \<open>
  Claim C4. The flush event \<open>DSP_FLUSH\<close> returns 0 and sets every per-channel field of
  both channels to zero: the crossover filter's previous output, the held subharmonic
  sample, the anti-alias filter's previous output and the toggle. The coefficient
  \<open>alpha_q16\<close>, the gain \<open>gain_q16\<close>, the pregain flag and the cached sample rate keep
  their values.
\<close>

theorem flush_resets_channel_state:
  "configure gs this dsp DSP_FLUSH s =
     Some (RET_ZERO, this,
       s\<lparr> prev_crossover_out := (0, 0), subharmonic_hold_q16 := (0, 0),
          prev_antialias_out_q16 := (0, 0), toggle_state := (0, 0) \<rparr>)
   \<and> (\<exists>s'. configure gs this dsp DSP_FLUSH s = Some (RET_ZERO, this, s')
        \<and> idx2 (prev_crossover_out s') 0 = 0 \<and> idx2 (prev_crossover_out s') 1 = 0
        \<and> idx2 (subharmonic_hold_q16 s') 0 = 0 \<and> idx2 (subharmonic_hold_q16 s') 1 = 0
        \<and> idx2 (prev_antialias_out_q16 s') 0 = 0 \<and> idx2 (prev_antialias_out_q16 s') 1 = 0
        \<and> idx2 (toggle_state s') 0 = 0 \<and> idx2 (toggle_state s') 1 = 0
        \<and> alpha_q16 s' = alpha_q16 s \<and> gain_q16 s' = gain_q16 s
        \<and> pregain s' = pregain s \<and> samplerate s' = samplerate s)"
  by (simp add: configure_def flush_state_def idx2_def)

text \<open>
  Claim C8. The sample-rate event \<open>DSP_SET_OUT_FREQUENCY\<close> always returns (the division
  cannot fault), stores the host's output frequency as the cached sample rate, and
  recomputes \<open>alpha_q16\<close> from the stored cutoff and that rate, \<open>gain_q16\<close> from the
  stored level and \<open>pregain\<close> from the stored flag. The filter memories, the held
  samples and the toggles of both channels keep their values.
\<close>

theorem out_frequency_keeps_channel_state:
  "\<exists>s'. configure gs this dsp DSP_SET_OUT_FREQUENCY s = Some (RET_ZERO, this, s')
      \<and> samplerate s' = output_frequency dsp
      \<and> calc_alpha_q16 (subharmonic_crossover gs) (output_frequency dsp) = Some (alpha_q16 s')
      \<and> gain_q16 s' = gain_lookup (subharmonic_level gs)
      \<and> pregain s' = subharmonic_pregain gs
      \<and> prev_crossover_out s' = prev_crossover_out s
      \<and> subharmonic_hold_q16 s' = subharmonic_hold_q16 s
      \<and> prev_antialias_out_q16 s' = prev_antialias_out_q16 s
      \<and> toggle_state s' = toggle_state s"
  by (simp add: configure_def recompute_total calc_alpha_q16_total)

section \<open>Processing while disabled\<close>

text \<open>
  Claim C9. When \<open>global_settings.subharmonic_enable\<close> is false, \<open>process\<close> returns at
  once: the buffer, with every sample of it, and the module state, with every
  per-channel field of it, come back as they were.
\<close>

theorem process_disabled_noop:
  "\<not> subharmonic_enable gs \<Longrightarrow> process gs s buf = Some (s, buf)"
  by (simp add: process_def)

theorem process_disabled_noop_witness:
  "process \<lparr> subharmonic_enable = False, subharmonic_crossover = 100,
             subharmonic_level = 0, subharmonic_pregain = False \<rparr>
     (initial_state\<lparr> alpha_q16 := 920, gain_q16 := 65536 \<rparr>)
     \<lparr> remcount = 2, p32 = ([1000, - 1000], [7, 9]), num_channels = 2 \<rparr>
   = Some (initial_state\<lparr> alpha_q16 := 920, gain_q16 := 65536 \<rparr>,
           \<lparr> remcount = 2, p32 = ([1000, - 1000], [7, 9]), num_channels = 2 \<rparr>)"
  using process_disabled_noop
    [of "\<lparr> subharmonic_enable = False, subharmonic_crossover = 100,
            subharmonic_level = 0, subharmonic_pregain = False \<rparr>"
        "initial_state\<lparr> alpha_q16 := 920, gain_q16 := 65536 \<rparr>"
        "\<lparr> remcount = 2, p32 = ([1000, - 1000], [7, 9]), num_channels = 2 \<rparr>"]
  by simp

section \<open>Integer arithmetic used below\<close>

lemma int_prod_bound:
  fixes x y :: int
  assumes "\<bar>x\<bar> \<le> A" "\<bar>y\<bar> \<le> B"
  shows "- (A * B) \<le> x * y \<and> x * y \<le> A * B"
proof -
  have "\<bar>x * y\<bar> = \<bar>x\<bar> * \<bar>y\<bar>" by (simp add: abs_mult)
  also have "\<dots> \<le> A * B"
    using assms by (intro mult_mono) auto
  finally show ?thesis by linarith
qed

lemma convex_bounds:
  fixes a x p lo hi K :: int
  assumes "0 \<le> a" "a \<le> K" "lo \<le> x" "x \<le> hi" "lo \<le> p" "p \<le> hi"
  shows "K * lo \<le> a * x + (K - a) * p \<and> a * x + (K - a) * p \<le> K * hi"
proof -
  have 1: "a * x \<le> a * hi" "a * lo \<le> a * x"
    using assms by (simp_all add: mult_left_mono)
  have 2: "(K - a) * p \<le> (K - a) * hi" "(K - a) * lo \<le> (K - a) * p"
    using assms by (simp_all add: mult_left_mono)
  have "a * hi + (K - a) * hi = K * hi" "a * lo + (K - a) * lo = K * lo"
    by (simp_all add: algebra_simps)
  with 1 2 show ?thesis by linarith
qed

lemma div_between:
  fixes v lo hi K :: int
  assumes "0 < K" "K * lo \<le> v" "v \<le> K * hi"
  shows "lo \<le> v div K \<and> v div K \<le> hi"
proof -
  have "(K * lo) div K \<le> v div K" using assms by (intro zdiv_mono1) auto
  moreover have "v div K \<le> (K * hi) div K" using assms by (intro zdiv_mono1) auto
  ultimately show ?thesis using assms by simp
qed

lemma sdiv_nonneg_pos: "0 \<le> (a::int) \<Longrightarrow> 0 < b \<Longrightarrow> a sdiv b = a div b"
  by (cases "a = 0") (simp_all add: signed_divide_int_def)

lemma frac_div_mono:
  fixes a b c d :: int
  assumes "0 < b" "0 < d" "a * d \<le> c * b"
  shows "a div b \<le> c div d"
proof -
  have "a div b * b \<le> a"
    using pos_mod_sign [OF assms(1), of a] div_mult_mod_eq [of a b] by linarith
  then have "a div b * b * d \<le> a * d"
    using assms(2) by (simp add: mult_right_mono)
  then have "(a div b * d) * b \<le> c * b"
    using assms(3) by (simp add: mult.assoc mult.commute mult.left_commute)
  then have "a div b * d \<le> c"
    using assms(1) by simp
  then have "(a div b * d) div d \<le> c div d"
    by (rule zdiv_mono1) (use assms in simp)
  then show ?thesis using assms(2) by simp
qed

lemma div_less_scale:
  fixes n d k :: int
  assumes "0 < d" "n < k * d"
  shows "n div d < k"
proof -
  have "n div d * d \<le> n"
    using pos_mod_sign [OF assms(1), of n] div_mult_mod_eq [of n d] by linarith
  then have "n div d * d < k * d" using assms(2) by linarith
  then show ?thesis using assms(1) by simp
qed

section \<open>The one-pole filter step stays in 32 bits\<close>

lemma sint_lowpass_acc:
  assumes "0 \<le> sint alpha" "sint alpha \<le> 65536"
  shows "sint (lowpass_acc alpha x prev)
       = (sint alpha * sint x + (65536 - sint alpha) * sint prev) div 65536"
proof -
  have c: "sint (65536 - alpha :: int32) = 65536 - sint alpha"
    using assms by (subst sint32_sub) simp_all
  have bx: "- (65536 * 2147483648) \<le> sint alpha * sint x
          \<and> sint alpha * sint x \<le> 65536 * 2147483648"
    using assms sint32_ge [of x] sint32_le [of x] by (intro int_prod_bound) auto
  have bp: "- (65536 * 2147483648) \<le> (65536 - sint alpha) * sint prev
          \<and> (65536 - sint alpha) * sint prev \<le> 65536 * 2147483648"
    using assms sint32_ge [of prev] sint32_le [of prev] by (intro int_prod_bound) auto
  have mx: "sint (scast alpha * scast x :: int64) = sint alpha * sint x"
    using bx by (subst sint64_mult) (simp_all add: sint_widen)
  have mp: "sint (scast (65536 - alpha) * scast prev :: int64) = (65536 - sint alpha) * sint prev"
    using bp by (subst sint64_mult) (simp_all add: sint_widen c)
  have "sint (scast alpha * scast x + scast (65536 - alpha) * scast prev :: int64)
      = sint alpha * sint x + (65536 - sint alpha) * sint prev"
    using bx bp by (subst sint64_add) (simp_all add: mx mp)
  then show ?thesis
    by (simp add: lowpass_acc_def sint64_sdrop)
qed

lemma lowpass_acc_between:
  assumes "0 \<le> sint alpha" "sint alpha \<le> 65536"
  shows "min (sint x) (sint prev) \<le> sint (lowpass_acc alpha x prev)
       \<and> sint (lowpass_acc alpha x prev) \<le> max (sint x) (sint prev)"
proof -
  have "65536 * min (sint x) (sint prev)
          \<le> sint alpha * sint x + (65536 - sint alpha) * sint prev
      \<and> sint alpha * sint x + (65536 - sint alpha) * sint prev
          \<le> 65536 * max (sint x) (sint prev)"
    using assms by (intro convex_bounds) auto
  then have "min (sint x) (sint prev)
          \<le> (sint alpha * sint x + (65536 - sint alpha) * sint prev) div 65536
      \<and> (sint alpha * sint x + (65536 - sint alpha) * sint prev) div 65536
          \<le> max (sint x) (sint prev)"
    by (intro div_between) auto
  then show ?thesis by (simp only: sint_lowpass_acc [OF assms])
qed

lemma lowpass_acc_int32:
  assumes "0 \<le> sint alpha" "sint alpha \<le> 65536"
  shows "- 2147483648 \<le> sint (lowpass_acc alpha x prev)
       \<and> sint (lowpass_acc alpha x prev) \<le> 2147483647"
  using lowpass_acc_between [OF assms, of x prev]
    sint32_ge [of x] sint32_le [of x] sint32_ge [of prev] sint32_le [of prev]
  by linarith

lemma sint_lowpass:
  assumes "0 \<le> sint alpha" "sint alpha \<le> 65536"
  shows "sint (lowpass alpha x prev) = sint (lowpass_acc alpha x prev)"
  unfolding lowpass_def using lowpass_acc_int32 [OF assms, of x prev]
  by (intro sint_narrow) auto

section \<open>What one pass of the inner loop does to the state\<close>

lemma idx2_upd2_same [simp]: "idx2 (upd2 a ch v) ch = v"
  by (simp add: idx2_def upd2_def)

lemma idx2_upd2_other: "(ch = 0) \<noteq> (ch' = 0) \<Longrightarrow> idx2 (upd2 a ch v) ch' = idx2 a ch'"
  by (auto simp add: idx2_def upd2_def)

lemma process_sample_crossover:
  "idx2 (prev_crossover_out (fst (process_sample s ch x))) ch
     = lowpass (alpha_q16 s) x (idx2 (prev_crossover_out s) ch)"
  by (simp add: process_sample_def Let_def)

lemma process_sample_toggle:
  "idx2 (toggle_state (fst (process_sample s ch x))) ch = idx2 (toggle_state s) ch XOR 1"
  by (simp add: process_sample_def Let_def)

lemma process_sample_hold:
  "idx2 (subharmonic_hold_q16 (fst (process_sample s ch x))) ch
     = (if idx2 (toggle_state s) ch = 0
        then lowpass (alpha_q16 s) x (idx2 (prev_crossover_out s) ch)
        else idx2 (subharmonic_hold_q16 s) ch)"
  by (simp add: process_sample_def Let_def)

lemma process_sample_antialias:
  "idx2 (prev_antialias_out_q16 (fst (process_sample s ch x))) ch
     = lowpass (alpha_q16 s) (idx2 (subharmonic_hold_q16 (fst (process_sample s ch x))) ch)
         (idx2 (prev_antialias_out_q16 s) ch)"
  by (simp add: process_sample_def Let_def)

lemma process_sample_output:
  "snd (process_sample s ch x)
     = scast (mixer (pregain s) (gain_q16 s) x
         (idx2 (prev_antialias_out_q16 (fst (process_sample s ch x))) ch))"
  by (simp add: process_sample_def Let_def)

lemma process_sample_coeffs:
  "alpha_q16 (fst (process_sample s ch x)) = alpha_q16 s
   \<and> gain_q16 (fst (process_sample s ch x)) = gain_q16 s
   \<and> pregain (fst (process_sample s ch x)) = pregain s
   \<and> samplerate (fst (process_sample s ch x)) = samplerate s"
  by (simp add: process_sample_def Let_def)

text \<open>
  Claim C10. With \<open>0 \<le> alpha_q16 \<le> 2^16\<close>, the 64-bit accumulation of a filter step,
  \<open>(alpha_q16 * input + (2^16 - alpha_q16) * previous) >> 16\<close>, is computed without
  wrap-around and its value lies in \<open>[INT32_MIN, INT32_MAX]\<close> for every 32-bit input and
  previous output, so the cast to 32 bits keeps the value. Hence the crossover and the
  anti-alias memory that \<open>process\<close> stores for a channel are exactly these accumulations.
\<close>

theorem lowpass_step_in_range:
  assumes "0 \<le> sint (alpha_q16 s)" and "sint (alpha_q16 s) \<le> 65536"
  shows "sint (lowpass_acc (alpha_q16 s) x prev)
           = (sint (alpha_q16 s) * sint x + (65536 - sint (alpha_q16 s)) * sint prev) div 65536
       \<and> - 2147483648 \<le> sint (lowpass_acc (alpha_q16 s) x prev)
       \<and> sint (lowpass_acc (alpha_q16 s) x prev) \<le> 2147483647
       \<and> sint (lowpass (alpha_q16 s) x prev) = sint (lowpass_acc (alpha_q16 s) x prev)
       \<and> sint (idx2 (prev_crossover_out (fst (process_sample s ch x))) ch)
           = sint (lowpass_acc (alpha_q16 s) x (idx2 (prev_crossover_out s) ch))
       \<and> sint (idx2 (prev_antialias_out_q16 (fst (process_sample s ch x))) ch)
           = sint (lowpass_acc (alpha_q16 s)
                     (idx2 (subharmonic_hold_q16 (fst (process_sample s ch x))) ch)
                     (idx2 (prev_antialias_out_q16 s) ch))"
  using sint_lowpass_acc [OF assms, of x prev] lowpass_acc_int32 [OF assms, of x prev]
    sint_lowpass [OF assms]
  by (simp add: process_sample_crossover process_sample_antialias)

theorem lowpass_step_in_range_witness:
  "0 \<le> sint (920 :: int32) \<and> sint (920 :: int32) \<le> 65536
   \<and> sint (lowpass_acc 920 1000 (- 1000)) = - 972
   \<and> sint (lowpass 920 1000 (- 1000)) = - 972
   \<and> sint (lowpass_acc 920 2147483647 (- 2147483648)) = - 2087190529
   \<and> sint (lowpass 920 2147483647 (- 2147483648)) = - 2087190529"
proof -
  have h1: "0 \<le> sint (alpha_q16 (initial_state\<lparr> alpha_q16 := 920 \<rparr>))" by simp
  have h2: "sint (alpha_q16 (initial_state\<lparr> alpha_q16 := 920 \<rparr>)) \<le> 65536" by simp
  show ?thesis
    using lowpass_step_in_range [OF h1 h2, of 1000 "- 1000" 0]
      lowpass_step_in_range [OF h1 h2, of 2147483647 "- 2147483648" 0]
    by simp
qed

section \<open>The mixer saturates\<close>

lemma sint_gain_term:
  "sint (signed_drop_bit 16 (scast (gain :: int32) * scast (aa :: int32) :: int64))
     = (sint gain * sint aa) div 65536
   \<and> - 70368744177664 \<le> (sint gain * sint aa) div 65536
   \<and> (sint gain * sint aa) div 65536 \<le> 70368744177664"
proof -
  have b: "- (2147483648 * 2147483648) \<le> sint gain * sint aa
         \<and> sint gain * sint aa \<le> 2147483648 * 2147483648"
    using sint32_ge [of gain] sint32_le [of gain] sint32_ge [of aa] sint32_le [of aa]
    by (intro int_prod_bound) auto
  have m: "sint (scast gain * scast aa :: int64) = sint gain * sint aa"
    using b by (subst sint64_mult) (simp_all add: sint_widen)
  have "- 70368744177664 \<le> (sint gain * sint aa) div 65536
      \<and> (sint gain * sint aa) div 65536 \<le> 70368744177664"
    using b by (intro div_between) auto
  then show ?thesis by (simp add: sint64_sdrop m)
qed

lemma sint_mixer:
  "sint (mixer pg gain sample aa)
     = max (- 2147483648) (min 2147483647
         ((if pg then sint sample div 2 else sint sample) + (sint gain * sint aa) div 65536))"
proof -
  note g = sint_gain_term [of gain aa]
  have h: "sint (signed_drop_bit (Suc 0) (scast sample :: int64)) = sint sample div 2"
    using sint64_sdrop [of 1 "scast sample"] by (simp add: sint_widen)
  have hb: "- 1073741824 \<le> sint sample div 2 \<and> sint sample div 2 \<le> 1073741823"
    using sint32_ge [of sample] sint32_le [of sample] by arith
  have s1: "sint (signed_drop_bit (Suc 0) (scast sample)
                + signed_drop_bit 16 (scast gain * scast aa) :: int64)
        = sint sample div 2 + (sint gain * sint aa) div 65536"
    using g hb by (subst sint64_add) (simp_all add: h)
  have s2: "sint (scast sample + signed_drop_bit 16 (scast gain * scast aa) :: int64)
        = sint sample + (sint gain * sint aa) div 65536"
    using g sint32_ge [of sample] sint32_le [of sample]
    by (subst sint64_add) (simp_all add: sint_widen)
  show ?thesis
    by (auto simp add: mixer_def Let_def word_sless_alt INT32_MAX_def INT32_MIN_def s1 s2)
qed

lemma mixer_int32:
  "- 2147483648 \<le> sint (mixer pg gain sample aa) \<and> sint (mixer pg gain sample aa) \<le> 2147483647"
  unfolding sint_mixer by simp

text \<open>
  Claim C1. For every input sample, every anti-alias output, every 32-bit gain (the
  table's entries among them) and both pregain settings, the 64-bit \<open>mixer_out\<close> after
  the two clipping tests is the exact sum clamped to \<open>[INT32_MIN, INT32_MAX]\<close>: nothing
  wraps on the way, the value lies in that range, and the cast that writes it into the
  buffer keeps it. Every gain the table yields is at most its last entry 264367, the
  gain of +12 dB. With the sample and the anti-alias output both \<open>INT32_MAX\<close>, that
  gain and pregain off, the sample written is \<open>INT32_MAX\<close>.
\<close>

theorem mixer_output_saturates:
  "sint (mixer pg gain sample aa)
     = max (- 2147483648) (min 2147483647
         ((if pg then sint sample div 2 else sint sample) + (sint gain * sint aa) div 65536))
   \<and> - 2147483648 \<le> sint (mixer pg gain sample aa)
   \<and> sint (mixer pg gain sample aa) \<le> 2147483647
   \<and> sint (scast (mixer pg gain sample aa) :: int32) = sint (mixer pg gain sample aa)
   \<and> snd (process_sample s ch sample)
       = scast (mixer (pregain s) (gain_q16 s) sample
           (idx2 (prev_antialias_out_q16 (fst (process_sample s ch sample))) ch))
   \<and> sint (gain_lookup db) \<le> 264367
   \<and> gain_lookup GAIN_TABLE_MAX_DB = 264367
   \<and> (scast (mixer False 264367 2147483647 2147483647) :: int32) = 2147483647"
proof -
  have 1: "gain_lookup GAIN_TABLE_MAX_DB = 264367"
    by (simp add: gain_lookup_def clamp_db_def GAIN_TABLE_MAX_DB_def GAIN_TABLE_MIN_DB_def
        gain_table_q16_def word_sless_alt)
  have 2: "(scast (mixer False 264367 2147483647 2147483647) :: int32) = 2147483647"
    by (simp add: mixer_def INT32_MAX_def INT32_MIN_def Let_def)
  have 3: "sint (scast (mixer pg gain sample aa) :: int32) = sint (mixer pg gain sample aa)"
    using mixer_int32 [of pg gain sample aa] by (intro sint_narrow) auto
  show ?thesis
    by (intro conjI sint_mixer mixer_int32 [THEN conjunct1] mixer_int32 [THEN conjunct2]
        process_sample_output gain_lookup_bounds [THEN conjunct2] 1 2 3)
qed

section \<open>The coefficient as an integer quotient\<close>

lemma sint_alpha_value:
  assumes "0 \<le> sint fc" "sint fc \<le> 341783328" "0 < sint sr"
  shows "sint (alpha_value fc sr)
       = (sint fc * 411774 * 65536) div (sint fc * 411774 + sint sr * 65536)
    \<and> 0 \<le> sint (alpha_value fc sr) \<and> sint (alpha_value fc sr) < 65536"
proof -
  define w where "w = sint fc * 411774"
  define S where "S = sint sr * 65536"
  have w: "0 \<le> w" "w \<le> 140737488169408" using assms by (simp_all add: w_def)
  have S: "0 < S" using assms by (simp add: S_def)
  have num: "sint (push_bit 16 (w_q16_of fc)) = w * 65536"
    using w by (subst sint64_push16) (simp_all add: sint_w_q16_of w_def)
  have den: "sint (den_of fc sr) = w + S"
    by (simp add: sint_den_of w_def S_def)
  have gden: "sint (guarded_den fc sr) = w + S"
    using w S den by (simp add: guarded_den_def word_sle_eq)
  have q: "sint (push_bit 16 (w_q16_of fc)) sdiv sint (guarded_den fc sr)
         = (w * 65536) div (w + S)"
    using w S by (simp add: num gden sdiv_nonneg_pos)
  have q0: "0 \<le> (w * 65536) div (w + S)"
    using w S by (simp add: pos_imp_zdiv_nonneg_iff)
  have q1: "(w * 65536) div (w + S) < 65536"
    using w S by (intro div_less_scale) auto
  have "sint (word_of_int ((w * 65536) div (w + S)) :: int64) = (w * 65536) div (w + S)"
    using q0 q1 by (intro sint64_of_int) auto
  then have "sint (alpha_value fc sr) = (w * 65536) div (w + S)"
    unfolding alpha_value_def q using q0 q1 by (subst sint_narrow) auto
  then show ?thesis using q0 q1 by (simp add: w_def S_def)
qed

lemma alpha_value_degenerate:
  assumes "den_of fc sr \<le>s 0"
  shows "guarded_den fc sr = 1 \<and> alpha_value fc sr = scast (push_bit 16 (w_q16_of fc))"
  using assms by (simp add: guarded_den_def alpha_value_def)

lemma alpha_value_degenerate_zero:
  assumes "den_of fc sr \<le>s 0" "0 \<le> sint fc" "0 \<le> sint sr"
  shows "alpha_value fc sr = 0"
proof -
  have "sint fc * 411774 + sint sr * 65536 \<le> 0"
    using assms(1) by (simp add: word_sle_eq sint_den_of)
  then have "sint fc = 0" using assms(2,3) by linarith
  then have "fc = 0" by (simp add: signed_eq_0_iff)
  then show ?thesis
    using alpha_value_degenerate [OF assms(1)] by (simp add: w_q16_of_def)
qed

lemma alpha_value_mono_cutoff:
  assumes "0 \<le> sint fc1" "sint fc1 \<le> sint fc2" "sint fc2 \<le> 341783328" "0 < sint sr"
  shows "sint (alpha_value fc1 sr) \<le> sint (alpha_value fc2 sr)"
proof -
  define w1 where "w1 = sint fc1 * 411774"
  define w2 where "w2 = sint fc2 * 411774"
  define S where "S = sint sr * 65536"
  have w: "0 \<le> w1" "w1 \<le> w2" and S: "0 < S"
    using assms by (simp_all add: w1_def w2_def S_def)
  have a1: "sint (alpha_value fc1 sr) = (w1 * 65536) div (w1 + S)"
    using sint_alpha_value [of fc1 sr] assms by (simp add: w1_def S_def)
  have a2: "sint (alpha_value fc2 sr) = (w2 * 65536) div (w2 + S)"
    using sint_alpha_value [of fc2 sr] assms by (simp add: w2_def S_def)
  have "w1 * S \<le> w2 * S"
    using w S by (simp add: mult_right_mono)
  then have "(w1 * 65536) * (w2 + S) \<le> (w2 * 65536) * (w1 + S)"
    by (simp add: algebra_simps)
  then have "(w1 * 65536) div (w1 + S) \<le> (w2 * 65536) div (w2 + S)"
    using w S by (intro frac_div_mono) auto
  then show ?thesis by (simp only: a1 a2)
qed

lemma alpha_value_mono_rate:
  assumes "0 \<le> sint fc" "sint fc \<le> 341783328" "0 < sint sr1" "sint sr1 \<le> sint sr2"
  shows "sint (alpha_value fc sr2) \<le> sint (alpha_value fc sr1)"
proof -
  define w where "w = sint fc * 411774"
  have w: "0 \<le> w" using assms by (simp add: w_def)
  have a1: "sint (alpha_value fc sr1) = (w * 65536) div (w + sint sr1 * 65536)"
    using sint_alpha_value [of fc sr1] assms by (simp add: w_def)
  have a2: "sint (alpha_value fc sr2) = (w * 65536) div (w + sint sr2 * 65536)"
    using sint_alpha_value [of fc sr2] assms by (simp add: w_def)
  have "(w * 65536) div (w + sint sr2 * 65536) \<le> (w * 65536) div (w + sint sr1 * 65536)"
    using w assms by (intro zdiv_mono2) auto
  then show ?thesis by (simp only: a1 a2)
qed

lemmas alpha_eval =
  calc_alpha_q16_def w_q16_of_def den_of_def TWO_PI_Q16_def c_div64_def INT64_MIN_def
  Let_def signed_divide_int_def word_sle_eq

section \<open>Range of the coefficient\<close>

text \<open>
  Claim C2, as stated, fails: the cutoff is an \<open>int\<close>, and from 341783329 Hz on the
  shift \<open>w_q16 << 16\<close> leaves 64 bits. At the default sample rate 44100 the cutoff
  400000000 gives \<open>alpha_q16 = -46458\<close>, from the setter and from \<open>recompute\<close> alike.
\<close>

theorem alpha_range_counterexample:
  "0 \<le> sint (400000000 :: int32) \<and> 0 < sint (samplerate initial_state)
   \<and> map_option alpha_q16 (sound_set_subharmonic_crossover 400000000 initial_state)
       = Some (- 46458)
   \<and> map_option alpha_q16
        (recompute \<lparr> subharmonic_enable = True, subharmonic_crossover = 400000000,
                     subharmonic_level = 0, subharmonic_pregain = False \<rparr> initial_state)
       = Some (- 46458)
   \<and> sint (- 46458 :: int32) < 0"
  by (simp add: sound_set_subharmonic_crossover_def recompute_def initial_state_def alpha_eval)

text \<open>
  Claim C2, amended. For every cutoff from 0 to 341783328 Hz (the cutoffs whose
  \<open>w_q16 << 16\<close> fits 64 bits) and every sample rate above 0, the setter and
  \<open>recompute\<close> both return, and the \<open>alpha_q16\<close> they store is the quotient
  \<open>(w * 2^16) div (w + samplerate * 2^16)\<close> with \<open>w = cutoff * 411774\<close>, which lies in
  \<open>[0, 2^16)\<close>.
\<close>

theorem alpha_in_unit_range:
  assumes "0 \<le> sint hz" and "sint hz \<le> 341783328"
    and "0 \<le> sint (subharmonic_crossover gs)"
    and "sint (subharmonic_crossover gs) \<le> 341783328"
    and "0 < sint (samplerate s)"
  shows "(\<exists>s'. sound_set_subharmonic_crossover hz s = Some s'
            \<and> sint (alpha_q16 s')
                = (sint hz * 411774 * 65536) div (sint hz * 411774 + sint (samplerate s) * 65536)
            \<and> 0 \<le> sint (alpha_q16 s') \<and> sint (alpha_q16 s') < 65536)
       \<and> (\<exists>s'. recompute gs s = Some s'
            \<and> sint (alpha_q16 s')
                = (sint (subharmonic_crossover gs) * 411774 * 65536)
                    div (sint (subharmonic_crossover gs) * 411774 + sint (samplerate s) * 65536)
            \<and> 0 \<le> sint (alpha_q16 s') \<and> sint (alpha_q16 s') < 65536)"
  using sint_alpha_value [OF assms(1,2,5)] sint_alpha_value [OF assms(3,4,5)]
  by (simp add: setter_total recompute_total)

theorem alpha_in_unit_range_witness:
  "(\<exists>s'. sound_set_subharmonic_crossover 100 initial_state = Some s'
        \<and> sint (alpha_q16 s') = 920 \<and> 0 \<le> sint (alpha_q16 s') \<and> sint (alpha_q16 s') < 65536)
   \<and> (\<exists>s'. recompute \<lparr> subharmonic_enable = True, subharmonic_crossover = 341783328,
                        subharmonic_level = 0, subharmonic_pregain = False \<rparr> initial_state
              = Some s'
        \<and> sint (alpha_q16 s') = 65534 \<and> 0 \<le> sint (alpha_q16 s') \<and> sint (alpha_q16 s') < 65536)"
proof -
  have h: "0 \<le> sint (100 :: int32)" "sint (100 :: int32) \<le> 341783328"
    "0 \<le> sint (subharmonic_crossover
        \<lparr> subharmonic_enable = True, subharmonic_crossover = 341783328,
          subharmonic_level = 0, subharmonic_pregain = False \<rparr>)"
    "sint (subharmonic_crossover
        \<lparr> subharmonic_enable = True, subharmonic_crossover = 341783328,
          subharmonic_level = 0, subharmonic_pregain = False \<rparr>) \<le> 341783328"
    "0 < sint (samplerate initial_state)"
    by (simp_all add: initial_state_def)
  show ?thesis
    using alpha_in_unit_range [OF h] by (simp add: initial_state_def)
qed

section \<open>The guard on the denominator\<close>

text \<open>
  Claim C5, as stated, fails in its last part: the guard replaces a denominator
  \<open>\<le> 0\<close> by 1, and the coefficient is then the low 32 bits of \<open>w_q16 << 16\<close>, which
  need not be near zero. At the default sample rate 44100 the cutoff -7019 has the
  denominator -104106, and the setter stores \<open>alpha_q16 = 1767243776\<close>, that is 26966.0
  as a Q16 fraction.
\<close>

theorem degenerate_alpha_counterexample:
  "den_of (- 7019) (samplerate initial_state) \<le>s 0
   \<and> sint (den_of (- 7019) (samplerate initial_state)) = - 104106
   \<and> map_option alpha_q16 (sound_set_subharmonic_crossover (- 7019) initial_state)
       = Some 1767243776
   \<and> sint (1767243776 :: int32) = 26966 * 65536"
  by (simp add: sound_set_subharmonic_crossover_def initial_state_def alpha_eval)

text \<open>
  Claim C5, amended. Whenever the denominator \<open>w_q16 + (samplerate << 16)\<close> is
  \<open>\<le> 0\<close>, the divisor used is 1, so the division does not fault, and the setter and
  \<open>recompute\<close> store the 32-bit cast of \<open>w_q16 << 16\<close>; this coefficient is 0 when the
  cutoff and the sample rate are both non-negative.
\<close>

theorem degenerate_denominator_guarded:
  assumes "den_of hz (samplerate s) \<le>s 0"
    and "den_of (subharmonic_crossover gs) (samplerate s) \<le>s 0"
  shows "guarded_den hz (samplerate s) = 1
       \<and> guarded_den (subharmonic_crossover gs) (samplerate s) = 1
       \<and> calc_alpha_q16 hz (samplerate s) = Some (scast (push_bit 16 (w_q16_of hz)))
       \<and> sound_set_subharmonic_crossover hz s
           = Some (s\<lparr> alpha_q16 := scast (push_bit 16 (w_q16_of hz)) \<rparr>)
       \<and> map_option alpha_q16 (recompute gs s)
           = Some (scast (push_bit 16 (w_q16_of (subharmonic_crossover gs))))
       \<and> (0 \<le> sint hz \<and> 0 \<le> sint (samplerate s)
            \<longrightarrow> sound_set_subharmonic_crossover hz s = Some (s\<lparr> alpha_q16 := 0 \<rparr>))
       \<and> (0 \<le> sint (subharmonic_crossover gs) \<and> 0 \<le> sint (samplerate s)
            \<longrightarrow> map_option alpha_q16 (recompute gs s) = Some 0)"
  using alpha_value_degenerate [OF assms(1)] alpha_value_degenerate [OF assms(2)]
    alpha_value_degenerate_zero [OF assms(1)] alpha_value_degenerate_zero [OF assms(2)]
  by (simp add: setter_total recompute_total calc_alpha_q16_total)

theorem degenerate_denominator_guarded_witness:
  "den_of 0 (samplerate (initial_state\<lparr> samplerate := 0 \<rparr>)) \<le>s 0
   \<and> guarded_den 0 0 = 1
   \<and> calc_alpha_q16 0 0 = Some 0
   \<and> sound_set_subharmonic_crossover 0 (initial_state\<lparr> samplerate := 0 \<rparr>)
       = Some (initial_state\<lparr> samplerate := 0, alpha_q16 := 0 \<rparr>)
   \<and> map_option alpha_q16
        (recompute \<lparr> subharmonic_enable = True, subharmonic_crossover = 0,
                     subharmonic_level = 0, subharmonic_pregain = False \<rparr>
           (initial_state\<lparr> samplerate := 0 \<rparr>))
       = Some 0"
proof -
  have h1: "den_of 0 (samplerate (initial_state\<lparr> samplerate := 0 \<rparr>)) \<le>s 0"
    by (simp add: den_of_def w_q16_of_def word_sle_eq)
  have h2: "den_of (subharmonic_crossover
        \<lparr> subharmonic_enable = True, subharmonic_crossover = 0,
          subharmonic_level = 0, subharmonic_pregain = False \<rparr>)
      (samplerate (initial_state\<lparr> samplerate := 0 \<rparr>)) \<le>s 0"
    by (simp add: den_of_def w_q16_of_def word_sle_eq)
  show ?thesis
    using degenerate_denominator_guarded [OF h1 h2] h1 by (simp add: w_q16_of_def)
qed

section \<open>Monotonicity of the coefficient\<close>

text \<open>
  Claim C6, as stated, fails: the quotient is truncated to an integer, so neighbouring
  inputs can share a coefficient. At 44100 Hz the cutoffs 14524 and 14525 both give
  44184; at the cutoff 100 the sample rates 44100 and 44101 both give 920; at the
  cutoff 0 the sample rates 44100 and 48000 both give 0. Past 341783328 Hz the
  shift wraps and the coefficient drops below every earlier one: -65534 at
  341783329 Hz.
\<close>

theorem alpha_strict_monotone_counterexample:
  "map_option alpha_q16
     (recompute \<lparr> subharmonic_enable = True, subharmonic_crossover = 14524,
                  subharmonic_level = 0, subharmonic_pregain = False \<rparr> initial_state)
     = Some 44184
   \<and> map_option alpha_q16
     (recompute \<lparr> subharmonic_enable = True, subharmonic_crossover = 14525,
                  subharmonic_level = 0, subharmonic_pregain = False \<rparr> initial_state)
     = Some 44184
   \<and> map_option alpha_q16
     (recompute \<lparr> subharmonic_enable = True, subharmonic_crossover = 100,
                  subharmonic_level = 0, subharmonic_pregain = False \<rparr> initial_state)
     = Some 920
   \<and> map_option alpha_q16
     (recompute \<lparr> subharmonic_enable = True, subharmonic_crossover = 100,
                  subharmonic_level = 0, subharmonic_pregain = False \<rparr>
        (initial_state\<lparr> samplerate := 44101 \<rparr>))
     = Some 920
   \<and> map_option alpha_q16
     (recompute \<lparr> subharmonic_enable = True, subharmonic_crossover = 0,
                  subharmonic_level = 0, subharmonic_pregain = False \<rparr> initial_state)
     = Some 0
   \<and> map_option alpha_q16
     (recompute \<lparr> subharmonic_enable = True, subharmonic_crossover = 0,
                  subharmonic_level = 0, subharmonic_pregain = False \<rparr>
        (initial_state\<lparr> samplerate := 48000 \<rparr>))
     = Some 0
   \<and> map_option alpha_q16
     (recompute \<lparr> subharmonic_enable = True, subharmonic_crossover = 341783329,
                  subharmonic_level = 0, subharmonic_pregain = False \<rparr> initial_state)
     = Some (- 65534)"
  by (simp add: recompute_def initial_state_def alpha_eval)

text \<open>
  Claim C6, amended. For cutoffs from 0 to 341783328 Hz and sample rates above 0,
  \<open>recompute\<close> returns and the \<open>alpha_q16\<close> it stores never decreases when the cutoff
  increases at a fixed sample rate, and never increases when the sample rate increases
  at a fixed cutoff.
\<close>

theorem alpha_monotone:
  assumes "0 \<le> sint (subharmonic_crossover gs1)"
    and "sint (subharmonic_crossover gs1) \<le> sint (subharmonic_crossover gs2)"
    and "sint (subharmonic_crossover gs2) \<le> 341783328"
    and "0 < sint (samplerate s1)"
    and "sint (samplerate s1) \<le> sint (samplerate s2)"
  shows "\<exists>a b c. recompute gs1 s1 = Some a \<and> recompute gs2 s1 = Some b
           \<and> recompute gs1 s2 = Some c
           \<and> sint (alpha_q16 a) \<le> sint (alpha_q16 b)
           \<and> sint (alpha_q16 c) \<le> sint (alpha_q16 a)"
proof -
  have le: "sint (subharmonic_crossover gs1) \<le> 341783328"
    using assms(2,3) by linarith
  show ?thesis
    using alpha_value_mono_cutoff [OF assms(1,2,3,4)]
      alpha_value_mono_rate [OF assms(1) le assms(4,5)]
    by (simp add: recompute_total)
qed

theorem alpha_monotone_witness:
  "\<exists>a b c.
     recompute \<lparr> subharmonic_enable = True, subharmonic_crossover = 100,
                 subharmonic_level = 0, subharmonic_pregain = False \<rparr> initial_state = Some a
     \<and> recompute \<lparr> subharmonic_enable = True, subharmonic_crossover = 200,
                 subharmonic_level = 0, subharmonic_pregain = False \<rparr> initial_state = Some b
     \<and> recompute \<lparr> subharmonic_enable = True, subharmonic_crossover = 100,
                 subharmonic_level = 0, subharmonic_pregain = False \<rparr>
          (initial_state\<lparr> samplerate := 48000 \<rparr>) = Some c
     \<and> sint (alpha_q16 a) \<le> sint (alpha_q16 b)
     \<and> sint (alpha_q16 c) \<le> sint (alpha_q16 a)"
proof -
  have h: "0 \<le> sint (subharmonic_crossover
        \<lparr> subharmonic_enable = True, subharmonic_crossover = 100,
          subharmonic_level = 0, subharmonic_pregain = False \<rparr>)"
    "sint (subharmonic_crossover
        \<lparr> subharmonic_enable = True, subharmonic_crossover = 100,
          subharmonic_level = 0, subharmonic_pregain = False \<rparr>)
     \<le> sint (subharmonic_crossover
        \<lparr> subharmonic_enable = True, subharmonic_crossover = 200,
          subharmonic_level = 0, subharmonic_pregain = False \<rparr>)"
    "sint (subharmonic_crossover
        \<lparr> subharmonic_enable = True, subharmonic_crossover = 200,
          subharmonic_level = 0, subharmonic_pregain = False \<rparr>) \<le> 341783328"
    "0 < sint (samplerate initial_state)"
    "sint (samplerate initial_state) \<le> sint (samplerate (initial_state\<lparr> samplerate := 48000 \<rparr>))"
    by (simp_all add: initial_state_def)
  show ?thesis by (rule alpha_monotone [OF h])
qed

section \<open>Setter followed by a sample-rate change\<close>

text \<open>
  Claim C7, as stated, fails: \<open>sound_set_subharmonic_crossover\<close> stores only the
  coefficient, not the cutoff, and \<open>recompute\<close> reads the cutoff from
  \<open>global_settings\<close>. With 100 Hz in the settings, the setter called with 200 Hz stores
  1815; the sample-rate change to 48000 then stores 846, the coefficient of 100 Hz,
  where 200 Hz at 48000 would give 1671.
\<close>

theorem setter_then_rate_change_counterexample:
  "map_option alpha_q16 (sound_set_subharmonic_crossover 200 initial_state) = Some 1815
   \<and> map_option (\<lambda>(r, t, s'). alpha_q16 s')
       (configure \<lparr> subharmonic_enable = True, subharmonic_crossover = 100,
                    subharmonic_level = 0, subharmonic_pregain = False \<rparr>
          \<lparr> process_set = True \<rparr> \<lparr> output_frequency = 48000 \<rparr> DSP_SET_OUT_FREQUENCY
          (initial_state\<lparr> alpha_q16 := 1815 \<rparr>))
       = Some 846
   \<and> calc_alpha_q16 200 48000 = Some 1671
   \<and> calc_alpha_q16 100 48000 = Some 846"
  by (simp add: sound_set_subharmonic_crossover_def configure_def recompute_def
      initial_state_def alpha_eval)

text \<open>
  Claim C7, amended. After \<open>sound_set_subharmonic_crossover(hz)\<close> followed by the event
  \<open>DSP_SET_OUT_FREQUENCY\<close>, both of which always return, the \<open>alpha_q16\<close> that the
  pipeline reads is the coefficient of the cutoff held in \<open>global_settings\<close> and the
  new sample rate; it is the coefficient of \<open>hz\<close> and the new sample rate when the
  settings hold \<open>hz\<close>, which the setter leaves to its caller. The samples processed
  after the event use this coefficient.
\<close>

theorem setter_then_rate_change:
  "\<exists>s1 s2. sound_set_subharmonic_crossover hz s = Some s1
      \<and> configure gs this dsp DSP_SET_OUT_FREQUENCY s1 = Some (RET_ZERO, this, s2)
      \<and> calc_alpha_q16 (subharmonic_crossover gs) (output_frequency dsp) = Some (alpha_q16 s2)
      \<and> (subharmonic_crossover gs = hz
           \<longrightarrow> calc_alpha_q16 hz (output_frequency dsp) = Some (alpha_q16 s2))
      \<and> idx2 (prev_crossover_out (fst (process_sample s2 ch x))) ch
           = lowpass (alpha_q16 s2) x (idx2 (prev_crossover_out s2) ch)"
  by (simp add: setter_total configure_def recompute_total calc_alpha_q16_total
      process_sample_crossover)

theorem setter_then_rate_change_witness:
  "\<exists>s1 s2. sound_set_subharmonic_crossover 200 initial_state = Some s1
      \<and> configure \<lparr> subharmonic_enable = True, subharmonic_crossover = 200,
                     subharmonic_level = 0, subharmonic_pregain = False \<rparr>
           \<lparr> process_set = True \<rparr> \<lparr> output_frequency = 48000 \<rparr> DSP_SET_OUT_FREQUENCY s1
          = Some (RET_ZERO, \<lparr> process_set = True \<rparr>, s2)
      \<and> calc_alpha_q16 200 48000 = Some (alpha_q16 s2)"
  using setter_then_rate_change
    [of 200 initial_state
        "\<lparr> subharmonic_enable = True, subharmonic_crossover = 200,
           subharmonic_level = 0, subharmonic_pregain = False \<rparr>"
        "\<lparr> process_set = True \<rparr>" "\<lparr> output_frequency = 48000 \<rparr>" 0 1000]
  by auto

section \<open>Sample and hold\<close>

lemma length_channel_states [simp]: "length (channel_states s ch xs) = length xs"
  by (induction xs arbitrary: s) (simp_all add: Let_def)

lemma hold_pattern:
  assumes "idx2 (toggle_state s) ch = 0" and "n < length xs"
  shows "idx2 (toggle_state (channel_states s ch xs ! n)) ch = (if even n then 1 else 0)
       \<and> idx2 (subharmonic_hold_q16 (channel_states s ch xs ! n)) ch
           = idx2 (prev_crossover_out (channel_states s ch xs ! (2 * (n div 2)))) ch"
  using assms
proof (induction xs arbitrary: s n rule: induct_list012)
  case 1
  then show ?case by simp
next
  case (2 x)
  then show ?case
    by (simp add: Let_def process_sample_toggle process_sample_hold process_sample_crossover)
next
  case (3 x y zs)
  define s1 where "s1 = fst (process_sample s ch x)"
  define s2 where "s2 = fst (process_sample s1 ch y)"
  have cs: "channel_states s ch (x # y # zs) = s1 # s2 # channel_states s2 ch zs"
    by (simp add: Let_def s1_def s2_def)
  have t1: "idx2 (toggle_state s1) ch = 1"
    using "3.prems"(1) by (simp add: s1_def process_sample_toggle)
  have t2: "idx2 (toggle_state s2) ch = 0"
    using t1 by (simp add: s2_def process_sample_toggle)
  have h1: "idx2 (subharmonic_hold_q16 s1) ch = idx2 (prev_crossover_out s1) ch"
    using "3.prems"(1) by (simp add: s1_def process_sample_hold process_sample_crossover)
  have h2: "idx2 (subharmonic_hold_q16 s2) ch = idx2 (prev_crossover_out s1) ch"
    using t1 h1 by (simp add: s2_def process_sample_hold)
  consider "n = 0" | "n = 1" | m where "n = m + 2" "m < length zs"
    using "3.prems"(2) by (cases n; cases "n - 1") auto
  then show ?case
  proof cases
    case 1
    show ?thesis unfolding cs 1 by (simp add: t1 h1)
  next
    case 2
    show ?thesis unfolding cs 2 by (simp add: t2 h2)
  next
    case 3
    have "2 * ((m + 2) div 2) = 2 * (m div 2) + 2" by simp
    then have ix: "(s1 # s2 # channel_states s2 ch zs) ! (2 * ((m + 2) div 2))
        = channel_states s2 ch zs ! (2 * (m div 2))"
      by simp
    show ?thesis
      using "3.IH"(1) [OF t2 3(2)] unfolding cs 3(1) ix by simp
  qed
qed

section \<open>The processing loop, channel by channel\<close>

text \<open>
  When the effect is enabled and the channel arrays hold at least \<open>remcount\<close> samples,
  \<open>process\<close> returns, and for each channel it handles the state it leaves agrees with
  the last of \<open>channel_states\<close> over that channel's first \<open>remcount\<close> samples: the
  passes for the other channel, interleaved by the loop, do not disturb it.
\<close>

lemma same_channel_refl [simp]: "same_channel ch s s"
  by (simp add: same_channel_def)

lemma same_channel_trans: "same_channel ch s t \<Longrightarrow> same_channel ch t u \<Longrightarrow> same_channel ch s u"
  by (simp add: same_channel_def)

lemma process_sample_same:
  assumes "same_channel ch s t"
  shows "same_channel ch (fst (process_sample s ch x)) (fst (process_sample t ch x))"
  using assms
  by (simp add: same_channel_def process_sample_crossover process_sample_hold
      process_sample_toggle process_sample_antialias process_sample_coeffs)

lemma process_sample_other:
  assumes "(ch = 0) \<noteq> (ch' = 0)"
  shows "same_channel ch (fst (process_sample s ch' x)) s"
  using assms
  by (auto simp add: same_channel_def process_sample_def Let_def idx2_def upd2_def)

lemma channel_states_same:
  "same_channel ch s t \<Longrightarrow>
     same_channel ch (last (s # channel_states s ch xs)) (last (t # channel_states t ch xs))"
proof (induction xs arbitrary: s t)
  case Nil
  then show ?case by simp
next
  case (Cons x xs)
  have "same_channel ch (fst (process_sample s ch x)) (fst (process_sample t ch x))"
    using Cons.prems by (rule process_sample_same)
  from Cons.IH [OF this] show ?case by (simp add: Let_def)
qed

lemma idx2_write_same:
  "idx2 (p32 (write_sample buf ch i v)) ch = (idx2 (p32 buf) ch)[i := v]"
  by (simp add: write_sample_def)

lemma idx2_write_other:
  "(ch = 0) \<noteq> (ch' = 0) \<Longrightarrow> idx2 (p32 (write_sample buf ch i v)) ch' = idx2 (p32 buf) ch'"
  by (simp add: write_sample_def idx2_upd2_other)

lemma read_sample_in_range:
  "i < length (idx2 (p32 buf) ch) \<Longrightarrow> read_sample buf ch i = Some (idx2 (p32 buf) ch ! i)"
  by (simp add: read_sample_def)

lemma process_channels_step:
  assumes "c \<le> 2" and "\<forall>ch<c. i < length (idx2 (p32 buf) ch)"
  shows "\<exists>s' buf'. process_channels i [0..<c] (s, buf) = Some (s', buf')
      \<and> (\<forall>ch<c. same_channel ch s' (fst (process_sample s ch (idx2 (p32 buf) ch ! i)))
            \<and> length (idx2 (p32 buf') ch) = length (idx2 (p32 buf) ch)
            \<and> drop (Suc i) (idx2 (p32 buf') ch) = drop (Suc i) (idx2 (p32 buf) ch))"
proof -
  consider "c = 0" | "c = 1" | "c = 2" using assms(1) by linarith
  then show ?thesis
  proof cases
    case 1
    then show ?thesis by simp
  next
    case 2
    then have r: "read_sample buf 0 i = Some (idx2 (p32 buf) 0 ! i)"
      using assms(2) by (simp add: read_sample_in_range)
    show ?thesis
      unfolding 2 using r
      by (simp add: split_beta Let_def idx2_write_same)
  next
    case 3
    define x0 where "x0 = idx2 (p32 buf) 0 ! i"
    define x1 where "x1 = idx2 (p32 buf) 1 ! i"
    define s1 where "s1 = fst (process_sample s 0 x0)"
    define buf1 where "buf1 = write_sample buf 0 i (snd (process_sample s 0 x0))"
    have r0: "read_sample buf 0 i = Some x0"
      using assms(2) 3 by (simp add: read_sample_in_range x0_def)
    have b1: "idx2 (p32 buf1) 1 = idx2 (p32 buf) 1"
      by (simp add: buf1_def idx2_write_other)
    have r1: "read_sample buf1 1 i = Some x1"
      using assms(2) 3 b1 by (simp add: read_sample_in_range x1_def)
    have l: "[0..<2] = [0, Suc 0]" by (simp add: upt_rec)
    have p: "process_channels i [0..<2] (s, buf)
        = Some (fst (process_sample s1 1 x1), write_sample buf1 1 i (snd (process_sample s1 1 x1)))"
      using r0 r1 by (simp add: l split_beta s1_def buf1_def)
    have v0: "same_channel 0 (fst (process_sample s1 1 x1)) (fst (process_sample s 0 x0))"
      unfolding s1_def [symmetric] by (rule process_sample_other) simp
    have "same_channel 1 s1 s"
      unfolding s1_def by (rule process_sample_other) simp
    then have v1: "same_channel 1 (fst (process_sample s1 1 x1)) (fst (process_sample s 1 x1))"
      by (rule process_sample_same)
    have w0: "idx2 (p32 (write_sample buf1 1 i v)) 0 = (idx2 (p32 buf) 0)[i := snd (process_sample s 0 x0)]" for v
      by (simp add: idx2_write_other buf1_def idx2_write_same)
    have w1: "idx2 (p32 (write_sample buf1 1 i v)) 1 = (idx2 (p32 buf) 1)[i := v]" for v
      by (simp only: idx2_write_same b1)
    show ?thesis
      unfolding 3 p using v0 v1 w0 w1
      by (auto simp add: less_Suc_eq numeral_2_eq_2 x0_def x1_def)
  qed
qed

lemma process_samples_channel:
  assumes "c \<le> 2" and "\<forall>ch<c. k + n \<le> length (idx2 (p32 buf) ch)"
  shows "\<exists>s' buf'. process_samples [k..<k + n] [0..<c] (s, buf) = Some (s', buf')
      \<and> (\<forall>ch<c. same_channel ch s'
            (last (s # channel_states s ch (take n (drop k (idx2 (p32 buf) ch))))))"
  using assms(2)
proof (induction n arbitrary: k s buf)
  case 0
  then show ?case by simp
next
  case (Suc n)
  have len: "\<forall>ch<c. k < length (idx2 (p32 buf) ch)"
    using Suc.prems by auto
  from process_channels_step [OF assms(1) len, of s]
  obtain s1 buf1 where
    step: "process_channels k [0..<c] (s, buf) = Some (s1, buf1)"
    and v: "\<forall>ch<c. same_channel ch s1 (fst (process_sample s ch (idx2 (p32 buf) ch ! k)))
            \<and> length (idx2 (p32 buf1) ch) = length (idx2 (p32 buf) ch)
            \<and> drop (Suc k) (idx2 (p32 buf1) ch) = drop (Suc k) (idx2 (p32 buf) ch)"
    by blast
  have "\<forall>ch<c. Suc k + n \<le> length (idx2 (p32 buf1) ch)"
    using Suc.prems v by auto
  from Suc.IH [OF this, of s1]
  obtain s' buf' where
    rest: "process_samples [Suc k..<Suc k + n] [0..<c] (s1, buf1) = Some (s', buf')"
    and r: "\<forall>ch<c. same_channel ch s'
            (last (s1 # channel_states s1 ch (take n (drop (Suc k) (idx2 (p32 buf1) ch)))))"
    by blast
  have u: "[k..<k + Suc n] = k # [Suc k..<Suc k + n]"
    using upt_conv_Cons [of k "k + Suc n"] by simp
  have run: "process_samples [k..<k + Suc n] [0..<c] (s, buf) = Some (s', buf')"
    by (simp only: u process_samples.simps step option.case rest)
  have "same_channel ch s'
      (last (s # channel_states s ch (take (Suc n) (drop k (idx2 (p32 buf) ch)))))"
    if "ch < c" for ch
  proof -
    let ?xs = "idx2 (p32 buf) ch"
    let ?t = "fst (process_sample s ch (?xs ! k))"
    let ?rest = "take n (drop (Suc k) ?xs)"
    have k: "k < length ?xs" using len that by simp
    have split: "take (Suc n) (drop k ?xs) = ?xs ! k # ?rest"
      using k by (simp add: Cons_nth_drop_Suc [symmetric])
    have a: "same_channel ch s' (last (s1 # channel_states s1 ch ?rest))"
      using r v that by simp
    have "same_channel ch s1 ?t" using v that by simp
    then have b: "same_channel ch (last (s1 # channel_states s1 ch ?rest))
        (last (?t # channel_states ?t ch ?rest))"
      by (rule channel_states_same)
    show ?thesis
      unfolding split using same_channel_trans [OF a b] by (simp add: Let_def)
  qed
  with run show ?case by blast
qed

lemma process_follows_channel_states:
  assumes "subharmonic_enable gs"
    and "\<forall>ch < min (num_channels buf) 2. nat (sint (remcount buf)) \<le> length (idx2 (p32 buf) ch)"
  shows "\<exists>s' buf'. process gs s buf = Some (s', buf')
      \<and> (\<forall>ch < min (num_channels buf) 2. same_channel ch s'
            (last (s # channel_states s ch
               (take (nat (sint (remcount buf))) (idx2 (p32 buf) ch)))))"
  using process_samples_channel [of "min (num_channels buf) 2" 0 "nat (sint (remcount buf))" buf s]
    assms
  by (simp add: process_def)

lemma channel_states_nth:
  "m < length xs \<Longrightarrow>
     channel_states s ch xs ! m
       = fst (process_sample ((s # channel_states s ch xs) ! m) ch (xs ! m))"
proof (induction xs arbitrary: s m)
  case Nil
  then show ?case by simp
next
  case (Cons x xs)
  show ?case
  proof (cases m)
    case 0
    then show ?thesis by (simp add: Let_def)
  next
    case (Suc k)
    with Cons.prems have "k < length xs" by simp
    from Cons.IH [OF this, of "fst (process_sample s ch x)"] Suc
    show ?thesis by (simp add: Let_def)
  qed
qed

lemma channel_states_alpha:
  "m \<le> length xs \<Longrightarrow> alpha_q16 ((s # channel_states s ch xs) ! m) = alpha_q16 s"
proof (induction xs arbitrary: s m)
  case Nil
  then show ?case by simp
next
  case (Cons x xs)
  show ?case
  proof (cases m)
    case 0
    then show ?thesis by simp
  next
    case (Suc k)
    with Cons.prems have "k \<le> length xs" by simp
    from Cons.IH [OF this, of "fst (process_sample s ch x)"] Suc
    show ?thesis by (simp add: Let_def process_sample_coeffs)
  qed
qed

lemma channel_states_crossover:
  assumes "m < length xs"
  shows "idx2 (prev_crossover_out (channel_states s ch xs ! m)) ch
       = lowpass (alpha_q16 s) (xs ! m)
           (idx2 (prev_crossover_out ((s # channel_states s ch xs) ! m)) ch)"
proof -
  have "m \<le> length xs" using assms by simp
  then have a: "alpha_q16 ((s # channel_states s ch xs) ! m) = alpha_q16 s"
    by (rule channel_states_alpha)
  show ?thesis
    by (subst channel_states_nth [OF assms]) (simp only: process_sample_crossover a)
qed

lemma held_crossover_input:
  assumes "idx2 (toggle_state s) ch = 0" and "n < length xs"
  shows "idx2 (subharmonic_hold_q16 (channel_states s ch xs ! n)) ch
       = lowpass (alpha_q16 s) (xs ! (2 * (n div 2)))
           (idx2 (prev_crossover_out ((s # channel_states s ch xs) ! (2 * (n div 2)))) ch)"
proof -
  have "2 * (n div 2) < length xs" using assms(2) by simp
  from channel_states_crossover [OF this, of s ch] hold_pattern [OF assms]
  show ?thesis by simp
qed

lemma process_hold_pattern:
  assumes "subharmonic_enable gs"
    and "ch < min (num_channels buf) 2"
    and "\<forall>c < min (num_channels buf) 2. nat (sint (remcount buf)) \<le> length (idx2 (p32 buf) c)"
    and "take (nat (sint (remcount buf))) (idx2 (p32 buf) ch) = xs"
    and "idx2 (toggle_state s) ch = 0"
    and "xs \<noteq> []"
  shows "\<exists>s' buf'. process gs s buf = Some (s', buf')
      \<and> idx2 (toggle_state s') ch = (if even (length xs - 1) then 1 else 0)
      \<and> idx2 (subharmonic_hold_q16 s') ch
          = lowpass (alpha_q16 s) (xs ! (2 * ((length xs - 1) div 2)))
              (idx2 (prev_crossover_out
                 ((s # channel_states s ch xs) ! (2 * ((length xs - 1) div 2)))) ch)"
proof -
  from process_follows_channel_states [OF assms(1,3), of s]
  obtain s' buf' where
    run: "process gs s buf = Some (s', buf')"
    and v: "same_channel ch s' (last (s # channel_states s ch xs))"
    using assms(2,4) by blast
  have n: "length xs - 1 < length xs" using assms(6) by simp
  have "channel_states s ch xs \<noteq> []"
    using assms(6) by (cases xs) (simp_all add: Let_def)
  then have "last (s # channel_states s ch xs) = channel_states s ch xs ! (length xs - 1)"
    by (simp add: last_conv_nth)
  with v have e: "same_channel ch s' (channel_states s ch xs ! (length xs - 1))"
    by simp
  have t: "idx2 (toggle_state s') ch = (if even (length xs - 1) then 1 else 0)"
    using e hold_pattern [OF assms(5) n] by (simp add: same_channel_def)
  have h: "idx2 (subharmonic_hold_q16 s') ch
      = lowpass (alpha_q16 s) (xs ! (2 * ((length xs - 1) div 2)))
          (idx2 (prev_crossover_out
             ((s # channel_states s ch xs) ! (2 * ((length xs - 1) div 2)))) ch)"
    using e held_crossover_input [OF assms(5) n] by (simp add: same_channel_def)
  from run t h show ?thesis by blast
qed

text \<open>
  Claim C3. After \<open>flush_state\<close> the toggle of every channel is 0. Every pass of the
  inner loop stores the crossover filter's output of the current input sample,
  overwrites the held register with that output when the toggle is 0 and leaves it
  as it was otherwise, flips the toggle (\<open>XOR 1\<close>) whatever its value, and feeds the
  anti-alias filter with the held register as it stands after the pass. Starting
  from toggle 0, along the samples \<open>xs\<close> of one channel the toggle reads 1 after the
  samples with even index and 0 after those with odd index, and the held register
  after sample \<open>n\<close> is the crossover-filtered input sample \<open>2 * (n div 2)\<close>: it is
  overwritten at samples 0, 2, 4, ... and kept at samples 1, 3, 5, ..., so the
  stage's output is the same for the two samples \<open>2k\<close> and \<open>2k + 1\<close> and is taken anew
  at \<open>2k + 2\<close>. When \<open>xs\<close> are the samples that an enabled \<open>process\<close> finds in the
  buffer for that channel, \<open>process\<close> returns and leaves the toggle and the
  held register of the last of these samples.
\<close>

theorem sample_and_hold_pattern:
  assumes "idx2 (toggle_state s) ch = 0" and "n < length xs"
  shows "idx2 (toggle_state (flush_state s0)) ch = 0
       \<and> idx2 (prev_crossover_out (fst (process_sample t ch x))) ch
           = lowpass (alpha_q16 t) x (idx2 (prev_crossover_out t) ch)
       \<and> idx2 (subharmonic_hold_q16 (fst (process_sample t ch x))) ch
           = (if idx2 (toggle_state t) ch = 0
              then lowpass (alpha_q16 t) x (idx2 (prev_crossover_out t) ch)
              else idx2 (subharmonic_hold_q16 t) ch)
       \<and> idx2 (toggle_state (fst (process_sample t ch x))) ch = idx2 (toggle_state t) ch XOR 1
       \<and> idx2 (prev_antialias_out_q16 (fst (process_sample t ch x))) ch
           = lowpass (alpha_q16 t) (idx2 (subharmonic_hold_q16 (fst (process_sample t ch x))) ch)
               (idx2 (prev_antialias_out_q16 t) ch)
       \<and> idx2 (toggle_state (channel_states s ch xs ! n)) ch = (if even n then 1 else 0)
       \<and> idx2 (subharmonic_hold_q16 (channel_states s ch xs ! n)) ch
           = idx2 (prev_crossover_out (channel_states s ch xs ! (2 * (n div 2)))) ch
       \<and> idx2 (subharmonic_hold_q16 (channel_states s ch xs ! n)) ch
           = lowpass (alpha_q16 s) (xs ! (2 * (n div 2)))
               (idx2 (prev_crossover_out ((s # channel_states s ch xs) ! (2 * (n div 2)))) ch)
       \<and> (subharmonic_enable gs \<and> ch < min (num_channels buf) 2
            \<and> (\<forall>c < min (num_channels buf) 2.
                  nat (sint (remcount buf)) \<le> length (idx2 (p32 buf) c))
            \<and> take (nat (sint (remcount buf))) (idx2 (p32 buf) ch) = xs
          \<longrightarrow> (\<exists>s' buf'. process gs s buf = Some (s', buf')
                \<and> idx2 (toggle_state s') ch = (if even (length xs - 1) then 1 else 0)
                \<and> idx2 (subharmonic_hold_q16 s') ch
                    = lowpass (alpha_q16 s) (xs ! (2 * ((length xs - 1) div 2)))
                        (idx2 (prev_crossover_out
                           ((s # channel_states s ch xs) ! (2 * ((length xs - 1) div 2)))) ch)))"
proof -
  have f: "idx2 (toggle_state (flush_state s0)) ch = 0"
    by (simp add: flush_state_def idx2_def)
  have ne: "xs \<noteq> []" using assms(2) by auto
  have p: "subharmonic_enable gs \<and> ch < min (num_channels buf) 2
            \<and> (\<forall>c < min (num_channels buf) 2.
                  nat (sint (remcount buf)) \<le> length (idx2 (p32 buf) c))
            \<and> take (nat (sint (remcount buf))) (idx2 (p32 buf) ch) = xs
          \<longrightarrow> (\<exists>s' buf'. process gs s buf = Some (s', buf')
                \<and> idx2 (toggle_state s') ch = (if even (length xs - 1) then 1 else 0)
                \<and> idx2 (subharmonic_hold_q16 s') ch
                    = lowpass (alpha_q16 s) (xs ! (2 * ((length xs - 1) div 2)))
                        (idx2 (prev_crossover_out
                           ((s # channel_states s ch xs) ! (2 * ((length xs - 1) div 2)))) ch))"
    using process_hold_pattern [of gs ch buf xs s] assms(1) ne by blast
  show ?thesis
    by (intro conjI f process_sample_crossover process_sample_hold process_sample_toggle
        process_sample_antialias hold_pattern [OF assms, THEN conjunct1]
        hold_pattern [OF assms, THEN conjunct2] held_crossover_input [OF assms] p)
qed

theorem sample_and_hold_pattern_witness:
  "idx2 (toggle_state (flush_state (initial_state\<lparr> alpha_q16 := 32768 \<rparr>))) 0 = 0
   \<and> (3 :: nat) < length [1000, - 1000, 3000, 5000 :: int32]
   \<and> idx2 (toggle_state
        (channel_states (flush_state (initial_state\<lparr> alpha_q16 := 32768 \<rparr>)) 0
           [1000, - 1000, 3000, 5000] ! 3)) 0 = 0
   \<and> idx2 (subharmonic_hold_q16
        (channel_states (flush_state (initial_state\<lparr> alpha_q16 := 32768 \<rparr>)) 0
           [1000, - 1000, 3000, 5000] ! 3)) 0
       = idx2 (prev_crossover_out
        (channel_states (flush_state (initial_state\<lparr> alpha_q16 := 32768 \<rparr>)) 0
           [1000, - 1000, 3000, 5000] ! 2)) 0
   \<and> idx2 (subharmonic_hold_q16
        (channel_states (flush_state (initial_state\<lparr> alpha_q16 := 32768 \<rparr>)) 0
           [1000, - 1000, 3000, 5000] ! 3)) 0 = 1375
   \<and> (\<exists>s' buf'.
        process \<lparr> subharmonic_enable = True, subharmonic_crossover = 100,
                  subharmonic_level = 0, subharmonic_pregain = False \<rparr>
          (flush_state (initial_state\<lparr> alpha_q16 := 32768 \<rparr>))
          \<lparr> remcount = 4, p32 = ([1000, - 1000, 3000, 5000], [7, 9, 11, 13]),
            num_channels = 2 \<rparr>
          = Some (s', buf')
        \<and> idx2 (toggle_state s') 0 = 0
        \<and> idx2 (subharmonic_hold_q16 s') 0 = 1375)"
proof -
  let ?S = "flush_state (initial_state\<lparr> alpha_q16 := 32768 \<rparr>)"
  let ?xs = "[1000, - 1000, 3000, 5000 :: int32]"
  let ?gs = "\<lparr> subharmonic_enable = True, subharmonic_crossover = 100,
               subharmonic_level = 0, subharmonic_pregain = False \<rparr>"
  let ?buf = "\<lparr> remcount = 4, p32 = (?xs, [7, 9, 11, 13]), num_channels = 2 \<rparr>"
  have h1: "idx2 (toggle_state ?S) 0 = 0"
    by (simp add: flush_state_def idx2_def)
  have h2: "(3 :: nat) < length ?xs"
    by simp
  note T = sample_and_hold_pattern [OF h1 h2, where gs = ?gs and buf = ?buf
      and ?s0.0 = initial_state and t = initial_state and x = 0]
  have tg: "idx2 (toggle_state (channel_states ?S 0 ?xs ! 3)) 0 = (if even (3::nat) then 1 else 0)"
    using T by blast
  have hp: "idx2 (subharmonic_hold_q16 (channel_states ?S 0 ?xs ! 3)) 0
      = idx2 (prev_crossover_out (channel_states ?S 0 ?xs ! (2 * (3 div 2)))) 0"
    using T by blast
  have hv: "idx2 (subharmonic_hold_q16 (channel_states ?S 0 ?xs ! 3)) 0
      = lowpass (alpha_q16 ?S) (?xs ! (2 * (3 div 2)))
          (idx2 (prev_crossover_out ((?S # channel_states ?S 0 ?xs) ! (2 * (3 div 2)))) 0)"
    using T by blast
  have ev: "lowpass (alpha_q16 ?S) (?xs ! (2 * (3 div 2)))
          (idx2 (prev_crossover_out ((?S # channel_states ?S 0 ?xs) ! (2 * (3 div 2)))) 0)
      = 1375"
    by code_simp
  have pr: "subharmonic_enable ?gs \<and> 0 < min (num_channels ?buf) 2
      \<and> (\<forall>c < min (num_channels ?buf) 2.
            nat (sint (remcount ?buf)) \<le> length (idx2 (p32 ?buf) c))
      \<and> take (nat (sint (remcount ?buf))) (idx2 (p32 ?buf) 0) = ?xs"
    by (simp add: idx2_def)
  have "\<exists>s' buf'. process ?gs ?S ?buf = Some (s', buf')
      \<and> idx2 (toggle_state s') 0 = (if even (length ?xs - 1) then 1 else 0)
      \<and> idx2 (subharmonic_hold_q16 s') 0
          = lowpass (alpha_q16 ?S) (?xs ! (2 * ((length ?xs - 1) div 2)))
              (idx2 (prev_crossover_out
                 ((?S # channel_states ?S 0 ?xs) ! (2 * ((length ?xs - 1) div 2)))) 0)"
    using T pr by blast
  then obtain s' buf' where
    run: "process ?gs ?S ?buf = Some (s', buf')"
    and pt: "idx2 (toggle_state s') 0 = (if even (length ?xs - 1) then 1 else 0)"
    and ph: "idx2 (subharmonic_hold_q16 s') 0
          = lowpass (alpha_q16 ?S) (?xs ! (2 * ((length ?xs - 1) div 2)))
              (idx2 (prev_crossover_out
                 ((?S # channel_states ?S 0 ?xs) ! (2 * ((length ?xs - 1) div 2)))) 0)"
    by blast
  have ev': "lowpass (alpha_q16 ?S) (?xs ! (2 * ((length ?xs - 1) div 2)))
              (idx2 (prev_crossover_out
                 ((?S # channel_states ?S 0 ?xs) ! (2 * ((length ?xs - 1) div 2)))) 0)
      = 1375"
    by code_simp
  have pt': "idx2 (toggle_state s') 0 = 0" using pt by simp
  have ph': "idx2 (subharmonic_hold_q16 s') 0 = 1375" using ph by (simp only: ev')
  have q: "\<exists>s' buf'. process ?gs ?S ?buf = Some (s', buf')
      \<and> idx2 (toggle_state s') 0 = 0 \<and> idx2 (subharmonic_hold_q16 s') 0 = 1375"
    using run pt' ph' by blast
  have tg': "idx2 (toggle_state (channel_states ?S 0 ?xs ! 3)) 0 = 0"
    using tg by simp
  have hp': "idx2 (subharmonic_hold_q16 (channel_states ?S 0 ?xs ! 3)) 0
      = idx2 (prev_crossover_out (channel_states ?S 0 ?xs ! 2)) 0"
    using hp by simp
  have hv': "idx2 (subharmonic_hold_q16 (channel_states ?S 0 ?xs ! 3)) 0 = 1375"
    using hv by (simp only: ev)
  show ?thesis
    by (intro conjI h1 h2 tg' hp' hv' q)
qed

text \<open>
  The same run, evaluated: at \<open>alpha_q16 = 0.5\<close> the crossover outputs of the samples
  1000, -1000, 3000, 5000 are 500, -250, 1375, 3187, and the held register reads
  500, 500, 1375, 1375.
\<close>

lemma sample_and_hold_example:
  "map (\<lambda>t. (idx2 (prev_crossover_out t) 0, idx2 (subharmonic_hold_q16 t) 0,
              idx2 (toggle_state t) 0))
     (channel_states (flush_state (initial_state\<lparr> alpha_q16 := 32768 \<rparr>)) 0
        [1000, - 1000, 3000, 5000])
   = [(500, 500, 1), (- 250, 500, 0), (1375, 1375, 1), (3187, 1375, 0)]"
  by code_simp

end
